theory Spec2Isabelle
  imports Complex_Main "HOL-Library.Word" "HOL-Library.Sublist" "HOL-Library.AList" "HOL-Library.Code_Target_Nat"
begin

chapter \<open>The todo list component\<close>

text \<open>
  The React component \<open>TodoApp\<close>: a list of tasks kept in component state, loaded from
  \<open>localStorage\<close> when the page opens and written back after every change. The model
  follows the version of the component with editing and reordering
  (\<open>src/unnamed/part_000\<close>); the version in \<open>src/app/page.tsx\<close> is the same component
  without the editing cursor and the two move handlers.

  State setters become functions from state to state, the handlers read the state they
  are called in, and what the environment supplies (the saved text, the clock, the answer
  of a confirmation dialog) is an argument.
\<close>

section \<open>Strings\<close>

text \<open>
  A JavaScript string is a sequence of 16-bit code units. ASCII literals of the source are
  written with \<open>ascii\<close>; the Japanese texts of the default list are written as their
  code units.
\<close>

type_synonym jsstring = "16 word list"

definition ascii :: "string \<Rightarrow> jsstring" where
  "ascii s = map (\<lambda>c. of_nat (of_char c)) s"

text \<open>
  \<open>String.prototype.trim\<close> removes WhiteSpace and LineTerminator code points from both
  ends: TAB, LF, VT, FF, CR, SP, NBSP, the Unicode space separators (U+1680, U+2000 to
  U+200A, U+202F, U+205F, U+3000), LS, PS and the byte order mark U+FEFF.
\<close>

definition is_space :: "16 word \<Rightarrow> bool" where
  "is_space c =
     (c = 0x09 \<or> c = 0x0A \<or> c = 0x0B \<or> c = 0x0C \<or> c = 0x0D \<or> c = 0x20 \<or> c = 0xA0
      \<or> c = 0x1680 \<or> (0x2000 \<le> c \<and> c \<le> 0x200A) \<or> c = 0x2028 \<or> c = 0x2029
      \<or> c = 0x202F \<or> c = 0x205F \<or> c = 0x3000 \<or> c = 0xFEFF)"

definition trim :: "jsstring \<Rightarrow> jsstring" where
  "trim s = rev (dropWhile is_space (rev (dropWhile is_space s)))"

section \<open>The component's state\<close>

text \<open>
  \<open>interface Todo { id: number; text: string; completed: boolean }\<close>. The ids the
  program creates are integers (1, 2, 3 and \<open>Date.now()\<close>).
\<close>

record Todo =
  todo_id :: int
  todo_text :: jsstring
  completed :: bool

text \<open>
  The five \<open>useState\<close> cells of \<open>TodoApp\<close>, and what React and the browser hold for
  the component: \<open>storage\<close> is the entry \<open>'todos'\<close> of \<open>localStorage\<close>
  (\<open>None\<close> when \<open>getItem\<close> returns \<open>null\<close>), \<open>todos_ref\<close> is the identity of the
  array held in \<open>todos\<close> (a state setter that is given a new array changes it, one that
  returns the previous array does not), and \<open>effect_deps\<close> is the dependency list
  \<open>[todos, isLoaded]\<close> the persistence effect last ran with.
\<close>

record app_state =
  todos :: "Todo list"
  inputText :: jsstring
  isLoaded :: bool
  editingId :: "int option"
  editingText :: jsstring
  todos_ref :: nat
  storage :: "jsstring option"
  effect_deps :: "(nat \<times> bool) option"

definition setTodos :: "Todo list \<Rightarrow> app_state \<Rightarrow> app_state" where
  "setTodos newTodos s = s\<lparr>todos := newTodos, todos_ref := Suc (todos_ref s)\<rparr>"

definition defaultTodos :: "Todo list" where
  "defaultTodos =
     [\<lparr>todo_id = 1,
       todo_text = ascii ''Claude'' @ [0x3067, 0x30A2, 0x30D7, 0x30EA, 0x3092, 0x4F5C, 0x6210],
       completed = True\<rparr>,
      \<lparr>todo_id = 2,
       todo_text = ascii ''Vercel'' @ [0x306B, 0x30C7, 0x30D7, 0x30ED, 0x30A4],
       completed = False\<rparr>,
      \<lparr>todo_id = 3,
       todo_text = [0x30A2, 0x30D7, 0x30EA, 0x3092, 0x516C, 0x958B],
       completed = False\<rparr>]"

definition setDefaultTodos :: "app_state \<Rightarrow> app_state" where
  "setDefaultTodos s = setTodos defaultTodos s"

text \<open>
  The state of the first render, from the initial values of the \<open>useState\<close> calls;
  \<open>saved\<close> is what \<open>localStorage\<close> holds under \<open>'todos'\<close> when the page opens.
\<close>

definition initial_state :: "jsstring option \<Rightarrow> app_state" where
  "initial_state saved =
     \<lparr>todos = [], inputText = [], isLoaded = False, editingId = None, editingText = [],
      todos_ref = 0, storage = saved, effect_deps = None\<rparr>"

text \<open>
  The state the load effect leaves when nothing is saved: the default list, loaded.
\<close>

definition default_session :: app_state where
  "default_session = (setDefaultTodos (initial_state None))\<lparr>isLoaded := True\<rparr>"

section \<open>The event handlers\<close>

text \<open>
  \<open>addTodo\<close>: \<open>now\<close> is the value \<open>Date.now()\<close> returns at the call.
\<close>

definition addTodo :: "int \<Rightarrow> app_state \<Rightarrow> app_state" where
  "addTodo now s =
     (if trim (inputText s) \<noteq> [] then
        let newTodo = \<lparr>todo_id = now, todo_text = trim (inputText s), completed = False\<rparr>
        in (setTodos (todos s @ [newTodo]) s)\<lparr>inputText := []\<rparr>
      else s)"

definition toggleTodo :: "int \<Rightarrow> app_state \<Rightarrow> app_state" where
  "toggleTodo i s =
     setTodos (map (\<lambda>todo. if todo_id todo = i then todo\<lparr>completed := \<not> completed todo\<rparr>
                            else todo) (todos s)) s"

definition deleteTodo :: "int \<Rightarrow> app_state \<Rightarrow> app_state" where
  "deleteTodo i s =
     (let s1 = setTodos (filter (\<lambda>todo. todo_id todo \<noteq> i) (todos s)) s
      in if editingId s = Some i then s1\<lparr>editingId := None, editingText := []\<rparr> else s1)"

text \<open>
  The destructuring assignment \<open>[a[i], a[j]] = [a[j], a[i]]\<close> on a copy of the array:
  the right-hand side is read first, then \<open>a[i]\<close> and \<open>a[j]\<close> are written. With an
  index outside the array JavaScript writes \<open>undefined\<close> into the array (or adds a
  property to it), and the result is no longer a \<open>Todo[]\<close>: that is \<open>None\<close>.
\<close>

definition swap_entries :: "int \<Rightarrow> int \<Rightarrow> Todo list \<Rightarrow> Todo list option" where
  "swap_entries i j prevTodos =
     (if 0 \<le> i \<and> i < int (length prevTodos) \<and> 0 \<le> j \<and> j < int (length prevTodos)
      then Some (prevTodos[nat i := prevTodos ! nat j, nat j := prevTodos ! nat i])
      else None)"

definition moveTodoUp :: "int \<Rightarrow> app_state \<Rightarrow> app_state option" where
  "moveTodoUp index s =
     (if index > 0 then
        (case swap_entries index (index - 1) (todos s) of
           None \<Rightarrow> None
         | Some newTodos \<Rightarrow> Some (setTodos newTodos s))
      else Some s)"

definition moveTodoDown :: "int \<Rightarrow> app_state \<Rightarrow> app_state option" where
  "moveTodoDown index s =
     (if index < int (length (todos s)) - 1 then
        (case swap_entries index (index + 1) (todos s) of
           None \<Rightarrow> None
         | Some newTodos \<Rightarrow> Some (setTodos newTodos s))
      else Some s)"

definition startEditing :: "int \<Rightarrow> jsstring \<Rightarrow> app_state \<Rightarrow> app_state" where
  "startEditing i currentText s = s\<lparr>editingId := Some i, editingText := currentText\<rparr>"

definition saveEdit :: "app_state \<Rightarrow> app_state" where
  "saveEdit s =
     (let s1 =
        (if trim (editingText s) \<noteq> [] \<and> editingId s \<noteq> None then
           setTodos (map (\<lambda>todo. if Some (todo_id todo) = editingId s
                                  then todo\<lparr>todo_text := trim (editingText s)\<rparr>
                                  else todo) (todos s)) s
         else s)
      in s1\<lparr>editingId := None, editingText := []\<rparr>)"

definition cancelEdit :: "app_state \<Rightarrow> app_state" where
  "cancelEdit s = s\<lparr>editingId := None, editingText := []\<rparr>"

text \<open>
  \<open>clearAllTodos\<close> and \<open>resetToDefault\<close>: \<open>confirmed\<close> is what \<open>window.confirm\<close>
  returns.
\<close>

definition clearAllTodos :: "bool \<Rightarrow> app_state \<Rightarrow> app_state" where
  "clearAllTodos confirmed s =
     (if confirmed then (setTodos [] s)\<lparr>editingId := None, editingText := []\<rparr> else s)"

definition resetToDefault :: "bool \<Rightarrow> app_state \<Rightarrow> app_state" where
  "resetToDefault confirmed s =
     (if confirmed then (setDefaultTodos s)\<lparr>editingId := None, editingText := []\<rparr> else s)"

section \<open>The platform: \<open>JSON.parse\<close> and \<open>JSON.stringify\<close>\<close>

text \<open>
  The two effects of the component call \<open>JSON.parse\<close> on the saved text and
  \<open>JSON.stringify\<close> on the list. Both are functions of the platform, modelled here after
  ECMA-262: \<open>JSON.parse\<close> on every text, with \<open>SyntaxError\<close> as a value;
  \<open>JSON.stringify\<close> on the values the component passes to it, arrays of \<open>Todo\<close>.

  A parsed value is one of the six JSON kinds. A number is kept as the exact value of its
  literal; the rounding to a binary64 that JavaScript applies is the identity on the
  integers up to \<open>2^53 - 1\<close>, where the ids of this program live, and only a number
  with such a value becomes an id (\<open>as_todo\<close> below). JavaScript's negative zero, which
  a literal with a minus sign and the value zero denotes, is a value of its own. An object
  keeps its
  members in the order of their first occurrence, a repeated key overwriting the value
  (JavaScript moves keys that are array indices to the front; no object of this program
  has one).
\<close>

datatype json = JNull | JBool bool | JNumber rat | JNegativeZero | JString jsstring
  | JArray "json list" | JObject "(jsstring \<times> json) list"

datatype error = SyntaxError

subsection \<open>Tokens\<close>

datatype token = LBrace | RBrace | LBracket | RBracket | Comma | Colon
  | TString jsstring | TNumber rat | TNegativeZero | TTrue | TFalse | TNull

definition is_digit :: "16 word \<Rightarrow> bool" where
  "is_digit c = (0x30 \<le> c \<and> c \<le> 0x39)"

definition digit_value :: "16 word \<Rightarrow> nat" where
  "digit_value c = unat c - 48"

definition digits_value :: "jsstring \<Rightarrow> nat" where
  "digits_value ds = foldl (\<lambda>a c. 10 * a + digit_value c) 0 ds"

definition hex_value :: "16 word \<Rightarrow> nat option" where
  "hex_value h =
     (if 0x30 \<le> h \<and> h \<le> 0x39 then Some (unat h - 48)
      else if 0x61 \<le> h \<and> h \<le> 0x66 then Some (unat h - 87)
      else if 0x41 \<le> h \<and> h \<le> 0x46 then Some (unat h - 55)
      else None)"

definition hex4 :: "16 word \<Rightarrow> 16 word \<Rightarrow> 16 word \<Rightarrow> 16 word \<Rightarrow> 16 word option" where
  "hex4 a b c d =
     (case (hex_value a, hex_value b, hex_value c, hex_value d) of
        (Some x, Some y, Some z, Some w) \<Rightarrow> Some (of_nat (4096 * x + 256 * y + 16 * z + w))
      | _ \<Rightarrow> None)"

text \<open>
  The character after a backslash: a quote, a backslash, a slash, or one of the letters
  b, f, n, r, t.
\<close>

definition unescape :: "16 word \<Rightarrow> 16 word option" where
  "unescape e =
     (if e = 0x22 then Some 0x22 else if e = 0x5C then Some 0x5C
      else if e = 0x2F then Some 0x2F else if e = 0x62 then Some 0x08
      else if e = 0x66 then Some 0x0C else if e = 0x6E then Some 0x0A
      else if e = 0x72 then Some 0x0D else if e = 0x74 then Some 0x09
      else None)"

definition prepend :: "16 word \<Rightarrow> (jsstring \<times> jsstring) option \<Rightarrow> (jsstring \<times> jsstring) option" where
  "prepend c r = map_option (\<lambda>(s, rest). (c # s, rest)) r"

text \<open>
  A string literal, read from after its opening quote to its closing quote: the decoded
  code units and the text that follows. Code units below U+0020 are not allowed raw.
\<close>

fun lex_string :: "jsstring \<Rightarrow> (jsstring \<times> jsstring) option" where
  "lex_string [] = None"
| "lex_string (c # cs) =
     (if c = 0x22 then Some ([], cs)
      else if c = 0x5C then
        (case cs of
           [] \<Rightarrow> None
         | e # r \<Rightarrow>
             if e = 0x75 then
               (case r of
                  h1 # h2 # h3 # h4 # r' \<Rightarrow>
                    (case hex4 h1 h2 h3 h4 of
                       None \<Rightarrow> None
                     | Some u \<Rightarrow> prepend u (lex_string r'))
                | _ \<Rightarrow> None)
             else
               (case unescape e of
                  None \<Rightarrow> None
                | Some u \<Rightarrow> prepend u (lex_string r)))
      else if c < 0x20 then None
      else prepend c (lex_string cs))"

text \<open>
  A number literal: an optional minus, an integer part without a leading zero (or the
  single digit zero), an optional fraction, an optional exponent.
\<close>

definition scale10 :: "rat \<Rightarrow> int \<Rightarrow> rat" where
  "scale10 q e = (if 0 \<le> e then q * 10 ^ nat e else q / 10 ^ nat (- e))"

definition lex_int_part :: "jsstring \<Rightarrow> (jsstring \<times> jsstring) option" where
  "lex_int_part cs =
     (let ip = takeWhile is_digit cs
      in if ip = [] \<or> (hd ip = 0x30 \<and> tl ip \<noteq> []) then None
         else Some (ip, dropWhile is_digit cs))"

definition lex_fraction :: "jsstring \<Rightarrow> (jsstring \<times> jsstring) option" where
  "lex_fraction cs =
     (case cs of
        [] \<Rightarrow> Some ([], [])
      | c # r \<Rightarrow>
          if c = 0x2E then
            (if takeWhile is_digit r = [] then None
             else Some (takeWhile is_digit r, dropWhile is_digit r))
          else Some ([], cs))"

definition lex_exponent :: "jsstring \<Rightarrow> (int \<times> jsstring) option" where
  "lex_exponent cs =
     (case cs of
        [] \<Rightarrow> Some (0, [])
      | c # r \<Rightarrow>
          if c = 0x65 \<or> c = 0x45 then
            (let neg = (r \<noteq> [] \<and> hd r = 0x2D);
                 r' = (if r \<noteq> [] \<and> (hd r = 0x2D \<or> hd r = 0x2B) then tl r else r);
                 ed = takeWhile is_digit r'
             in if ed = [] then None
                else Some (if neg then - int (digits_value ed) else int (digits_value ed),
                           dropWhile is_digit r'))
          else Some (0, cs))"

definition lex_number :: "jsstring \<Rightarrow> (rat \<times> jsstring) option" where
  "lex_number cs =
     (let neg = (cs \<noteq> [] \<and> hd cs = 0x2D);
          r0 = (if neg then tl cs else cs)
      in case lex_int_part r0 of
           None \<Rightarrow> None
         | Some (ip, r1) \<Rightarrow>
             (case lex_fraction r1 of
                None \<Rightarrow> None
              | Some (fp, r2) \<Rightarrow>
                  (case lex_exponent r2 of
                     None \<Rightarrow> None
                   | Some (ex, r3) \<Rightarrow>
                       let q = scale10 (of_nat (digits_value (ip @ fp))) (ex - int (length fp))
                       in Some (if neg then - q else q, r3))))"

lemma lex_string_length: "lex_string cs = Some (s, rest) \<Longrightarrow> length rest \<le> length cs"
proof (induction cs arbitrary: s rest rule: lex_string.induct)
  case 1
  then show ?case by simp
next
  case (2 c cs)
  then show ?case
    by (auto simp: prepend_def split: if_splits list.splits option.splits) fastforce+
qed

lemma lex_int_part_length: "lex_int_part cs = Some (ip, rest) \<Longrightarrow> length rest < length cs"
proof -
  assume a: "lex_int_part cs = Some (ip, rest)"
  then have "takeWhile is_digit cs \<noteq> []" and r: "rest = dropWhile is_digit cs"
    by (auto simp: lex_int_part_def Let_def split: if_splits)
  then have "length (takeWhile is_digit cs) > 0" by simp
  moreover have "length (takeWhile is_digit cs) + length (dropWhile is_digit cs) = length cs"
    by (metis length_append takeWhile_dropWhile_id)
  ultimately show ?thesis using r by arith
qed

lemma lex_fraction_length: "lex_fraction cs = Some (fp, rest) \<Longrightarrow> length rest \<le> length cs"
  by (auto simp: lex_fraction_def split: list.splits if_splits
      intro: le_SucI length_dropWhile_le)

lemma lex_exponent_length: "lex_exponent cs = Some (ex, rest) \<Longrightarrow> length rest \<le> length cs"
proof -
  have d: "length (dropWhile is_digit (tl r)) \<le> length r" for r :: jsstring
    by (metis diff_le_self le_trans length_dropWhile_le length_tl)
  assume "lex_exponent cs = Some (ex, rest)"
  then show ?thesis
    by (auto simp: lex_exponent_def Let_def split: list.splits if_splits
      intro: le_SucI length_dropWhile_le d)
qed

lemma lex_number_length: "lex_number cs = Some (q, rest) \<Longrightarrow> length rest < length cs"
proof -
  assume a: "lex_number cs = Some (q, rest)"
  let ?r0 = "if cs \<noteq> [] \<and> hd cs = 0x2D then tl cs else cs"
  from a obtain ip r1 fp r2 ex where
    1: "lex_int_part ?r0 = Some (ip, r1)" and 2: "lex_fraction r1 = Some (fp, r2)"
    and 3: "lex_exponent r2 = Some (ex, rest)"
    by (auto simp: lex_number_def Let_def split: option.splits)
  have "length ?r0 \<le> length cs" by simp
  with lex_int_part_length[OF 1] lex_fraction_length[OF 2] lex_exponent_length[OF 3]
  show ?thesis by arith
qed

definition starts_with :: "jsstring \<Rightarrow> jsstring \<Rightarrow> bool" where
  "starts_with p cs = (take (length p) cs = p)"

text \<open>
  The tokens of a text. White space between tokens is SP, TAB, LF and CR; any other code
  unit that starts no token is a syntax error (\<open>None\<close>).
\<close>

function tokenize :: "jsstring \<Rightarrow> token list option" where
  "tokenize [] = Some []"
| "tokenize (c # cs) =
     (if c = 0x20 \<or> c = 0x09 \<or> c = 0x0A \<or> c = 0x0D then tokenize cs
      else if c = 0x7B then map_option (Cons LBrace) (tokenize cs)
      else if c = 0x7D then map_option (Cons RBrace) (tokenize cs)
      else if c = 0x5B then map_option (Cons LBracket) (tokenize cs)
      else if c = 0x5D then map_option (Cons RBracket) (tokenize cs)
      else if c = 0x2C then map_option (Cons Comma) (tokenize cs)
      else if c = 0x3A then map_option (Cons Colon) (tokenize cs)
      else if c = 0x22 then
        (case lex_string cs of
           None \<Rightarrow> None
         | Some (s, rest) \<Rightarrow> map_option (Cons (TString s)) (tokenize rest))
      else if c = 0x2D \<or> is_digit c then
        (case lex_number (c # cs) of
           None \<Rightarrow> None
         | Some (q, rest) \<Rightarrow>
             map_option (Cons (if c = 0x2D \<and> q = 0 then TNegativeZero else TNumber q))
               (tokenize rest))
      else if starts_with (ascii ''true'') (c # cs)
        then map_option (Cons TTrue) (tokenize (drop 3 cs))
      else if starts_with (ascii ''false'') (c # cs)
        then map_option (Cons TFalse) (tokenize (drop 4 cs))
      else if starts_with (ascii ''null'') (c # cs)
        then map_option (Cons TNull) (tokenize (drop 3 cs))
      else None)"
  by pat_completeness auto
termination tokenize
  by (relation "measure length")
    (auto dest: lex_string_length lex_number_length simp: less_Suc_eq_le)

subsection \<open>The grammar\<close>

text \<open>
  The parser reads the tokens from left to right with a stack of the containers that are
  open: an array with its elements so far, an object with its members so far, or an
  object whose next member has its key and awaits its value. \<open>expect\<close> is what the
  grammar allows next.
\<close>

datatype frame = FArray "json list" | FObject "(jsstring \<times> json) list"
  | FMember "(jsstring \<times> json) list" jsstring

datatype expect = Value | ValueOrEnd | KeyOrEnd | Key | ColonNext | CommaOrEnd | Finished json

fun deliver :: "json \<Rightarrow> frame list \<Rightarrow> (expect \<times> frame list) option" where
  "deliver v [] = Some (Finished v, [])"
| "deliver v (FArray es # st) = Some (CommaOrEnd, FArray (es @ [v]) # st)"
| "deliver v (FMember ms k # st) = Some (CommaOrEnd, FObject (AList.update k v ms) # st)"
| "deliver v (FObject ms # st) = None"

fun start_value :: "token \<Rightarrow> frame list \<Rightarrow> (expect \<times> frame list) option" where
  "start_value LBracket st = Some (ValueOrEnd, FArray [] # st)"
| "start_value LBrace st = Some (KeyOrEnd, FObject [] # st)"
| "start_value (TString s) st = deliver (JString s) st"
| "start_value (TNumber q) st = deliver (JNumber q) st"
| "start_value TNegativeZero st = deliver JNegativeZero st"
| "start_value TTrue st = deliver (JBool True) st"
| "start_value TFalse st = deliver (JBool False) st"
| "start_value TNull st = deliver JNull st"
| "start_value _ st = None"

fun close_container :: "token \<Rightarrow> frame list \<Rightarrow> (expect \<times> frame list) option" where
  "close_container RBracket (FArray es # st) = deliver (JArray es) st"
| "close_container RBrace (FObject ms # st) = deliver (JObject ms) st"
| "close_container _ _ = None"

fun start_member :: "token \<Rightarrow> frame list \<Rightarrow> (expect \<times> frame list) option" where
  "start_member (TString k) (FObject ms # st) = Some (ColonNext, FMember ms k # st)"
| "start_member _ _ = None"

fun next_item :: "frame list \<Rightarrow> (expect \<times> frame list) option" where
  "next_item (FArray es # st) = Some (Value, FArray es # st)"
| "next_item (FObject ms # st) = Some (Key, FObject ms # st)"
| "next_item _ = None"

fun step :: "expect \<Rightarrow> frame list \<Rightarrow> token \<Rightarrow> (expect \<times> frame list) option" where
  "step Value st t = start_value t st"
| "step ValueOrEnd st t = (if t = RBracket then close_container t st else start_value t st)"
| "step KeyOrEnd st t = (if t = RBrace then close_container t st else start_member t st)"
| "step Key st t = start_member t st"
| "step ColonNext st t = (if t = Colon then Some (Value, st) else None)"
| "step CommaOrEnd st t = (if t = Comma then next_item st else close_container t st)"
| "step (Finished v) st t = None"

fun consume :: "token list \<Rightarrow> expect \<times> frame list \<Rightarrow> (expect \<times> frame list) option" where
  "consume [] c = Some c"
| "consume (t # ts) (e, st) = (case step e st t of None \<Rightarrow> None | Some c \<Rightarrow> consume ts c)"

definition parse_tokens :: "token list \<Rightarrow> json option" where
  "parse_tokens ts =
     (case consume ts (Value, []) of
        Some (Finished v, []) \<Rightarrow> Some v
      | _ \<Rightarrow> None)"

text \<open>
  \<open>JSON.parse(text)\<close>: the value, or the \<open>SyntaxError\<close> it throws.
\<close>

definition JSON_parse :: "jsstring \<Rightarrow> error + json" where
  "JSON_parse text =
     (case tokenize text of
        None \<Rightarrow> Inl SyntaxError
      | Some ts \<Rightarrow> (case parse_tokens ts of None \<Rightarrow> Inl SyntaxError | Some v \<Rightarrow> Inr v))"

subsection \<open>Serialization\<close>

text \<open>
  \<open>Number::toString\<close> of an integer: its decimal digits, after a minus sign when it is
  negative. (JavaScript switches to exponent notation from \<open>10^21\<close>, far above the
  safe integers.)
\<close>

definition digit_char :: "nat \<Rightarrow> 16 word" where
  "digit_char d = of_nat (48 + d)"

fun nat_to_string :: "nat \<Rightarrow> jsstring" where
  "nat_to_string n =
     (if n < 10 then [digit_char n] else nat_to_string (n div 10) @ [digit_char (n mod 10)])"

declare nat_to_string.simps [simp del]

definition number_to_string :: "int \<Rightarrow> jsstring" where
  "number_to_string i =
     (if i < 0 then 0x2D # nat_to_string (nat (- i)) else nat_to_string (nat i))"

definition is_safe_integer :: "int \<Rightarrow> bool" where
  "is_safe_integer n = (- 9007199254740991 \<le> n \<and> n \<le> 9007199254740991)"

text \<open>
  \<open>QuoteJSONString\<close>: the two-character escapes for backspace, tab, line feed, form
  feed, carriage return, the quote and the backslash; a backslash, the letter u and four
  lower-case hexadecimal digits for the other code units below U+0020 and for a surrogate
  that is not part of a pair; every other code unit as it is.
\<close>

definition hex_digit :: "nat \<Rightarrow> 16 word" where
  "hex_digit n = of_nat (if n < 10 then 48 + n else 87 + n)"

definition unicode_escape :: "16 word \<Rightarrow> jsstring" where
  "unicode_escape c =
     [0x5C, 0x75, hex_digit (unat c div 4096), hex_digit (unat c div 256 mod 16),
      hex_digit (unat c div 16 mod 16), hex_digit (unat c mod 16)]"

definition quote_unit :: "16 word \<Rightarrow> jsstring" where
  "quote_unit c =
     (if c = 0x08 then [0x5C, 0x62] else if c = 0x09 then [0x5C, 0x74]
      else if c = 0x0A then [0x5C, 0x6E] else if c = 0x0C then [0x5C, 0x66]
      else if c = 0x0D then [0x5C, 0x72] else if c = 0x22 then [0x5C, 0x22]
      else if c = 0x5C then [0x5C, 0x5C]
      else if c < 0x20 then unicode_escape c
      else [c])"

definition is_high_surrogate :: "16 word \<Rightarrow> bool" where
  "is_high_surrogate c = (0xD800 \<le> c \<and> c \<le> 0xDBFF)"

definition is_low_surrogate :: "16 word \<Rightarrow> bool" where
  "is_low_surrogate c = (0xDC00 \<le> c \<and> c \<le> 0xDFFF)"

fun quote_units :: "jsstring \<Rightarrow> jsstring" where
  "quote_units [] = []"
| "quote_units [c] =
     (if is_high_surrogate c \<or> is_low_surrogate c then unicode_escape c else quote_unit c)"
| "quote_units (c # d # cs) =
     (if is_high_surrogate c then
        (if is_low_surrogate d then c # d # quote_units cs
         else unicode_escape c @ quote_units (d # cs))
      else if is_low_surrogate c then unicode_escape c @ quote_units (d # cs)
      else quote_unit c @ quote_units (d # cs))"

definition quote_json_string :: "jsstring \<Rightarrow> jsstring" where
  "quote_json_string s = 0x22 # quote_units s @ [0x22]"

text \<open>
  \<open>JSON.stringify\<close> of a \<open>Todo\<close>: its three properties in the order the object
  literals of the source create them (\<open>id\<close>, \<open>text\<close>, \<open>completed\<close>; the spread
  \<open>{...todo, completed: ...}\<close> keeps that order), and of a \<open>Todo[]\<close>.
\<close>

definition stringify_todo :: "Todo \<Rightarrow> jsstring" where
  \<open>stringify_todo todo =
     ascii ''{"id":'' @ number_to_string (todo_id todo)
     @ ascii '',"text":'' @ quote_json_string (todo_text todo)
     @ ascii '',"completed":'' @ (if completed todo then ascii ''true'' else ascii ''false'')
     @ ascii ''}''\<close>

fun join_comma :: "jsstring list \<Rightarrow> jsstring" where
  "join_comma [] = []"
| "join_comma [x] = x"
| "join_comma (x # y # xs) = x @ 0x2C # join_comma (y # xs)"

definition JSON_stringify :: "Todo list \<Rightarrow> jsstring" where
  "JSON_stringify ts = 0x5B # join_comma (map stringify_todo ts) @ [0x5D]"

subsection \<open>Typed and untyped values\<close>

text \<open>
  The JavaScript value of a \<open>Todo\<close> and of a \<open>Todo[]\<close>, and the way back:
  \<open>as_todos v\<close> is the list when \<open>v\<close> is such a value, and \<open>None\<close> for every other
  value. TypeScript's \<open>setTodos(JSON.parse(savedTodos))\<close> makes no such check: what
  \<open>JSON.parse\<close> returns has type \<open>any\<close>.

  An id is a safe integer. Only there is the exact value of a number literal the number
  JavaScript reads from it: a literal such as \<open>1e309\<close> is \<open>Infinity\<close> in JavaScript and
  \<open>9007199254740993\<close> is rounded to \<open>2^53\<close>, and neither is a \<open>todo_id\<close> of this
  model.
\<close>

abbreviation safe_ids :: "Todo list \<Rightarrow> bool" where
  "safe_ids ts \<equiv> list_all (\<lambda>t. is_safe_integer (todo_id t)) ts"

definition todo_json :: "Todo \<Rightarrow> json" where
  "todo_json todo =
     JObject [(ascii ''id'', JNumber (of_int (todo_id todo))),
              (ascii ''text'', JString (todo_text todo)),
              (ascii ''completed'', JBool (completed todo))]"

definition todos_json :: "Todo list \<Rightarrow> json" where
  "todos_json ts = JArray (map todo_json ts)"

fun as_todo :: "json \<Rightarrow> Todo option" where
  "as_todo (JObject [(k1, JNumber q), (k2, JString s), (k3, JBool b)]) =
     (if k1 = ascii ''id'' \<and> k2 = ascii ''text'' \<and> k3 = ascii ''completed''
         \<and> of_int \<lfloor>q\<rfloor> = q \<and> is_safe_integer \<lfloor>q\<rfloor>
      then Some \<lparr>todo_id = \<lfloor>q\<rfloor>, todo_text = s, completed = b\<rparr>
      else None)"
| "as_todo _ = None"

fun as_todos :: "json \<Rightarrow> Todo list option" where
  "as_todos (JArray vs) = those (map as_todo vs)"
| "as_todos _ = None"

section \<open>The two effects\<close>

text \<open>
  The body of the first \<open>useEffect\<close>: the value it passes to \<open>setTodos\<close>. An entry that
  is absent or the empty string is falsy; the \<open>try\<close> block turns the \<open>SyntaxError\<close> of
  \<open>JSON.parse\<close> into the default list (\<open>setDefaultTodos\<close>); whatever \<open>JSON.parse\<close>
  returns is passed on as it is.
\<close>

definition load :: "jsstring option \<Rightarrow> json" where
  "load savedTodos =
     (case savedTodos of
        None \<Rightarrow> todos_json defaultTodos
      | Some text \<Rightarrow>
          if text = [] then todos_json defaultTodos
          else (case JSON_parse text of
                  Inl err \<Rightarrow> todos_json defaultTodos
                | Inr v \<Rightarrow> v))"

text \<open>
  The second \<open>useEffect\<close>, with the dependency list \<open>[todos, isLoaded]\<close>: React runs
  the body after a render whose dependencies differ from those of the last run, and the
  body writes only when \<open>isLoaded\<close> holds.
\<close>

definition persist_effect :: "app_state \<Rightarrow> app_state" where
  "persist_effect s =
     (if effect_deps s = Some (todos_ref s, isLoaded s) then s
      else (if isLoaded s then s\<lparr>storage := Some (JSON_stringify (todos s))\<rparr> else s)
             \<lparr>effect_deps := Some (todos_ref s, isLoaded s)\<rparr>)"

text \<open>
  Opening the page. The first render has the initial state; after it both effects run
  with the values of that render: the first reads the storage and queues \<open>setTodos\<close> and
  \<open>setIsLoaded(true)\<close>, the second sees \<open>isLoaded = false\<close>. The queued updates give the
  second render, after which the persistence effect runs again. The state record holds a
  \<open>Todo[]\<close>: when the loaded value is not one, there is no state of this model
  (\<open>None\<close>).
\<close>

definition mount :: "jsstring option \<Rightarrow> app_state option" where
  "mount saved =
     (let s0 = initial_state saved
      in case as_todos (load (storage s0)) of
           None \<Rightarrow> None
         | Some loaded \<Rightarrow>
             let s1 = persist_effect s0;
                 s2 = (setTodos loaded s1)\<lparr>isLoaded := True\<rparr>
             in Some (persist_effect s2))"

text \<open>
  The events of the rendered page, each with what the environment supplies: the new value
  of an input field, the clock reading of \<open>Date.now()\<close>, the answer of
  \<open>window.confirm\<close>. React runs the handler, renders, and flushes the effects of that
  render before it handles the next event.
\<close>

datatype event =
    ChangeInput jsstring
  | AddTodo int
  | ToggleTodo int
  | DeleteTodo int
  | MoveTodoUp int
  | MoveTodoDown int
  | StartEditing int jsstring
  | ChangeEditingText jsstring
  | SaveEdit
  | CancelEdit
  | ClearAllTodos bool
  | ResetToDefault bool

fun handle :: "event \<Rightarrow> app_state \<Rightarrow> app_state option" where
  "handle (ChangeInput v) s = Some (s\<lparr>inputText := v\<rparr>)"
| "handle (AddTodo now) s = Some (addTodo now s)"
| "handle (ToggleTodo i) s = Some (toggleTodo i s)"
| "handle (DeleteTodo i) s = Some (deleteTodo i s)"
| "handle (MoveTodoUp index) s = moveTodoUp index s"
| "handle (MoveTodoDown index) s = moveTodoDown index s"
| "handle (StartEditing i currentText) s = Some (startEditing i currentText s)"
| "handle (ChangeEditingText v) s = Some (s\<lparr>editingText := v\<rparr>)"
| "handle SaveEdit s = Some (saveEdit s)"
| "handle CancelEdit s = Some (cancelEdit s)"
| "handle (ClearAllTodos confirmed) s = Some (clearAllTodos confirmed s)"
| "handle (ResetToDefault confirmed) s = Some (resetToDefault confirmed s)"

text \<open>
  \<open>Date.now()\<close> returns a time value: an integral number of milliseconds of magnitude at
  most \<open>8.64 * 10^15\<close>, which is a safe integer.
\<close>

fun clock_in_range :: "event \<Rightarrow> bool" where
  "clock_in_range (AddTodo now) = is_safe_integer now"
| "clock_in_range _ = True"

definition dispatch :: "event \<Rightarrow> app_state \<Rightarrow> app_state option" where
  "dispatch ev s = map_option persist_effect (handle ev s)"

fun run_events :: "event list \<Rightarrow> app_state \<Rightarrow> app_state option" where
  "run_events [] s = Some s"
| "run_events (ev # evs) s =
     (case dispatch ev s of None \<Rightarrow> None | Some s' \<Rightarrow> run_events evs s')"

section \<open>Auxiliary notions\<close>

text \<open>
  A state in which the persistence effect has run for the current list: the component is
  loaded, the ids of the list are safe integers, and the storage holds the serialization
  of \<open>todos\<close>.
\<close>

definition synced :: "app_state \<Rightarrow> bool" where
  "synced s =
     (isLoaded s \<and> effect_deps s = Some (todos_ref s, True)
      \<and> safe_ids (todos s)
      \<and> storage s = Some (JSON_stringify (todos s)))"

text \<open>
  A code unit that can follow an integer literal without continuing it.
\<close>

definition ends_number :: "16 word \<Rightarrow> bool" where
  "ends_number c = (\<not> is_digit c \<and> c \<noteq> 0x2E \<and> c \<noteq> 0x65 \<and> c \<noteq> 0x45)"

text \<open>
  The tokens of a serialized task and of a serialized list.
\<close>

definition todo_tokens :: "Todo \<Rightarrow> token list" where
  "todo_tokens todo =
     [LBrace, TString (ascii ''id''), Colon, TNumber (of_int (todo_id todo)), Comma,
      TString (ascii ''text''), Colon, TString (todo_text todo), Comma,
      TString (ascii ''completed''), Colon, (if completed todo then TTrue else TFalse), RBrace]"

fun todos_tokens :: "Todo list \<Rightarrow> token list" where
  "todos_tokens [] = []"
| "todos_tokens [x] = todo_tokens x"
| "todos_tokens (x # y # xs) = todo_tokens x @ Comma # todos_tokens (y # xs)"

section \<open>Serializing and parsing a list\<close>

subsection \<open>Numbers\<close>

lemma unat_digit_char: "d < 10 \<Longrightarrow> unat (digit_char d) = 48 + d"
  unfolding digit_char_def by (rule of_nat_inverse[OF refl]) simp

lemma is_digit_digit_char: "d < 10 \<Longrightarrow> is_digit (digit_char d)"
  by (simp add: is_digit_def word_le_nat_alt unat_digit_char)

lemma digit_value_digit_char: "d < 10 \<Longrightarrow> digit_value (digit_char d) = d"
  by (simp add: digit_value_def unat_digit_char)

lemma digit_char_zero: "d < 10 \<Longrightarrow> digit_char d = 0x30 \<longleftrightarrow> d = 0"
  by (simp add: word_unat_eq_iff unat_digit_char)

lemma nat_to_string_digits: "c \<in> set (nat_to_string n) \<Longrightarrow> is_digit c"
proof (induction n arbitrary: c rule: nat_to_string.induct)
  case (1 n)
  then show ?case
    by (subst (asm) (2) nat_to_string.simps) (auto simp: is_digit_digit_char split: if_splits)
qed

lemma nat_to_string_nonempty: "nat_to_string n \<noteq> []"
  by (subst nat_to_string.simps) simp

lemma digits_value_snoc: "digits_value (ds @ [c]) = 10 * digits_value ds + digit_value c"
  by (simp add: digits_value_def)

lemma digits_value_nat_to_string: "digits_value (nat_to_string n) = n"
proof (induction n rule: nat_to_string.induct)
  case (1 n)
  show ?case
  proof (cases "n < 10")
    case True
    then show ?thesis
      by (subst nat_to_string.simps) (simp add: digits_value_def digit_value_digit_char)
  next
    case False
    then show ?thesis
      using 1 by (subst nat_to_string.simps) (simp add: digits_value_snoc digit_value_digit_char)
  qed
qed

lemma nat_to_string_leading: "0 < n \<Longrightarrow> hd (nat_to_string n) \<noteq> 0x30"
proof (induction n rule: nat_to_string.induct)
  case (1 n)
  show ?case
  proof (cases "n < 10")
    case True
    then show ?thesis
      using 1(2) by (subst nat_to_string.simps) (simp add: digit_char_zero)
  next
    case False
    then have "0 < n div 10" by simp
    with 1 False show ?thesis
      by (subst nat_to_string.simps) (simp add: nat_to_string_nonempty)
  qed
qed

lemma nat_to_string_zero: "nat_to_string 0 = [0x30]"
  by (subst nat_to_string.simps) (simp add: digit_char_def)

lemma lex_int_part_nat_to_string:
  assumes "\<not> is_digit c"
  shows "lex_int_part (nat_to_string n @ c # rest) = Some (nat_to_string n, c # rest)"
proof -
  have t: "takeWhile is_digit (nat_to_string n @ c # rest) = nat_to_string n"
    using assms by (simp add: takeWhile_tail nat_to_string_digits)
  have d: "dropWhile is_digit (nat_to_string n @ c # rest) = c # rest"
    using assms by (simp add: dropWhile_append3 dropWhile_append nat_to_string_digits)
  have z: "hd (nat_to_string n) = 0x30 \<Longrightarrow> tl (nat_to_string n) = []"
    using nat_to_string_leading[of n] nat_to_string_zero by (cases "n = 0") auto
  show ?thesis
    using z by (auto simp: lex_int_part_def Let_def t d nat_to_string_nonempty)
qed

lemma lex_number_nat_to_string:
  assumes "ends_number c"
  shows "lex_number (nat_to_string n @ c # rest) = Some (of_nat n, c # rest)"
proof -
  have "is_digit (hd (nat_to_string n))"
    using nat_to_string_digits[of "hd (nat_to_string n)" n] nat_to_string_nonempty[of n]
    by simp
  then have h: "hd (nat_to_string n) \<noteq> 0x2D"
    by (auto simp: is_digit_def)
  show ?thesis
    using assms h
    by (simp add: lex_number_def Let_def nat_to_string_nonempty lex_int_part_nat_to_string
        ends_number_def lex_fraction_def lex_exponent_def digits_value_nat_to_string scale10_def)
qed

lemma lex_number_number_to_string:
  assumes "ends_number c"
  shows "lex_number (number_to_string i @ c # rest) = Some (of_int i, c # rest)"
proof (cases "i < 0")
  case False
  then show ?thesis
    using lex_number_nat_to_string[OF assms, of "nat i" rest] by (simp add: number_to_string_def)
next
  case True
  have "lex_number (0x2D # nat_to_string (nat (- i)) @ c # rest)
        = Some (- of_nat (nat (- i)), c # rest)"
    using assms
    by (simp add: lex_number_def Let_def lex_int_part_nat_to_string
        ends_number_def lex_fraction_def lex_exponent_def digits_value_nat_to_string scale10_def)
  moreover have "- (of_nat (nat (- i)) :: rat) = of_int i"
    using True by simp
  ultimately show ?thesis using True by (simp add: number_to_string_def)
qed

lemma number_to_string_head:
  "\<exists>d ds. number_to_string i = d # ds \<and> ((d = 0x2D \<and> i < 0) \<or> is_digit d)"
proof (cases "i < 0")
  case True
  then show ?thesis by (simp add: number_to_string_def)
next
  case False
  obtain d ds where s: "nat_to_string (nat i) = d # ds"
    using nat_to_string_nonempty by (cases "nat_to_string (nat i)") auto
  then have "is_digit d" using nat_to_string_digits[of d "nat i"] by simp
  with s False show ?thesis by (simp add: number_to_string_def)
qed

lemma tokenize_number_to_string:
  assumes "r = c # rest" and "ends_number c"
  shows "tokenize (number_to_string i @ r) = map_option (Cons (TNumber (of_int i))) (tokenize r)"
proof -
  obtain d ds where s: "number_to_string i = d # ds"
    and h: "(d = 0x2D \<and> i < 0) \<or> is_digit d"
    using number_to_string_head by blast
  have z: "d = 0x2D \<Longrightarrow> (of_int i :: rat) \<noteq> 0"
    using h by (auto simp: is_digit_def)
  have n: "lex_number (d # ds @ r) = Some (of_int i, r)"
    using lex_number_number_to_string[OF assms(2), of i rest] s assms(1) by simp
  have "d \<noteq> 0x20" "d \<noteq> 0x09" "d \<noteq> 0x0A" "d \<noteq> 0x0D" "d \<noteq> 0x7B" "d \<noteq> 0x7D"
    "d \<noteq> 0x5B" "d \<noteq> 0x5D" "d \<noteq> 0x2C" "d \<noteq> 0x3A" "d \<noteq> 0x22"
    using h by (auto simp: is_digit_def)
  then show ?thesis
    using h n z by (auto simp: s)
qed

subsection \<open>Strings\<close>

lemma hex_value_digit: "n < 16 \<Longrightarrow> hex_value (hex_digit n) = Some n"
  unfolding hex_value_def hex_digit_def
  by (auto simp: word_le_nat_alt word_less_nat_alt unat_of_nat take_bit_nat_eq_self)

lemma nibbles:
  "4096 * ((n::nat) div 4096) + 256 * (n div 256 mod 16) + 16 * (n div 16 mod 16) + n mod 16 = n"
proof -
  have a: "n div 256 = n div 16 div 16" and b: "n div 4096 = n div 16 div 16 div 16"
    by (simp_all add: div_mult2_eq[symmetric])
  have "16 * (n div 16) + n mod 16 = n"
    and "16 * (n div 16 div 16) + n div 16 mod 16 = n div 16"
    and "16 * (n div 16 div 16 div 16) + n div 16 div 16 mod 16 = n div 16 div 16"
    by (rule mult_div_mod_eq)+
  then show ?thesis
    unfolding a b by linarith
qed

lemma hex4_unicode_escape:
  "hex4 (hex_digit (unat c div 4096)) (hex_digit (unat c div 256 mod 16))
        (hex_digit (unat c div 16 mod 16)) (hex_digit (unat c mod 16)) = Some (c :: 16 word)"
proof -
  have "unat c < 2 ^ 16" using unsigned_less[of c, where 'a=nat] by simp
  then have "unat c div 4096 < 16" by simp
  then show ?thesis
    by (simp add: hex4_def hex_value_digit nibbles)
qed

lemma lex_string_unicode_escape:
  "lex_string (unicode_escape c @ r) = prepend c (lex_string r)"
  by (simp add: unicode_escape_def hex4_unicode_escape)

lemma lex_string_quote_unit:
  "lex_string (quote_unit c @ r) = prepend c (lex_string r)"
proof (cases "c < 0x20")
  case True
  then have "c \<noteq> 0x22" "c \<noteq> 0x5C" by auto
  then show ?thesis
    using True by (simp add: quote_unit_def lex_string_unicode_escape unescape_def)
next
  case False
  then show ?thesis
    by (simp add: quote_unit_def unescape_def)
qed

lemma surrogate_plain:
  assumes "is_high_surrogate c \<or> is_low_surrogate c"
  shows "c \<noteq> 0x22" "c \<noteq> 0x5C" "\<not> c < 0x20"
  using assms
  by (auto simp: is_high_surrogate_def is_low_surrogate_def word_le_nat_alt word_less_nat_alt)

lemma lex_string_quote_units:
  "lex_string (quote_units s @ 0x22 # rest) = Some (s, rest)"
proof (induction s rule: quote_units.induct)
  case 1
  show ?case by simp
next
  case (2 c)
  show ?case
    by (simp add: lex_string_unicode_escape lex_string_quote_unit prepend_def)
next
  case (3 c d cs)
  show ?case
  proof (cases "is_high_surrogate c")
    case hi: True
    show ?thesis
    proof (cases "is_low_surrogate d")
      case True
      with hi 3 show ?thesis
        using surrogate_plain[of c] surrogate_plain[of d] by (simp add: prepend_def)
    next
      case False
      with hi 3 show ?thesis
        by (simp add: lex_string_unicode_escape prepend_def)
    qed
  next
    case nohi: False
    show ?thesis
    proof (cases "is_low_surrogate c")
      case True
      with nohi 3 show ?thesis
        by (simp add: lex_string_unicode_escape prepend_def)
    next
      case False
      with nohi 3 show ?thesis
        by (simp add: lex_string_quote_unit prepend_def)
    qed
  qed
qed

lemma tokenize_quote_json_string:
  "tokenize (quote_json_string s @ r) = map_option (Cons (TString s)) (tokenize r)"
  by (simp add: quote_json_string_def lex_string_quote_units)

subsection \<open>One task, and the list\<close>

lemma tokenize_stringify_todo:
  "tokenize (stringify_todo todo @ r) = map_option (\<lambda>ts. todo_tokens todo @ ts) (tokenize r)"
proof -
  have e: "ends_number 0x2C"
    by (simp add: ends_number_def is_digit_def)
  have 1: "tokenize (ascii ''true}'' @ r) = map_option (\<lambda>ts. TTrue # RBrace # ts) (tokenize r)"
    and 2: "tokenize (ascii ''false}'' @ r) = map_option (\<lambda>ts. TFalse # RBrace # ts) (tokenize r)"
    by (simp_all add: ascii_def starts_with_def is_digit_def option.map_comp o_def)
  have 3: \<open>tokenize (ascii '',"completed":'' @ r') =
      map_option (\<lambda>ts. Comma # TString (ascii ''completed'') # Colon # ts) (tokenize r')\<close> for r'
    by (simp add: ascii_def prepend_def option.map_comp o_def)
  have 4: \<open>tokenize (ascii '',"text":'' @ r') =
      map_option (\<lambda>ts. Comma # TString (ascii ''text'') # Colon # ts) (tokenize r')\<close> for r'
    by (simp add: ascii_def prepend_def option.map_comp o_def)
  have 5: \<open>tokenize (ascii ''{"id":'' @ r') =
      map_option (\<lambda>ts. LBrace # TString (ascii ''id'') # Colon # ts) (tokenize r')\<close> for r'
    by (simp add: ascii_def prepend_def option.map_comp o_def)
  have 6: \<open>tokenize (number_to_string i @ ascii '',"text":'' @ r') =
      map_option (Cons (TNumber (of_int i))) (tokenize (ascii '',"text":'' @ r'))\<close> for i r'
    by (rule tokenize_number_to_string[OF _ e]) (simp add: ascii_def)
  have t: "ascii ''true'' @ ascii ''}'' @ r = ascii ''true}'' @ r"
    and f: "ascii ''false'' @ ascii ''}'' @ r = ascii ''false}'' @ r"
    by (simp_all add: ascii_def)
  show ?thesis
    unfolding stringify_todo_def todo_tokens_def append_assoc
    by (cases "completed todo")
      (simp_all only: if_True if_False 5 6 4 tokenize_quote_json_string 3 t f 1 2
        option.map_comp o_def append_Cons append_Nil)
qed

lemma tokenize_join_comma:
  "tokenize (join_comma (map stringify_todo ts) @ r) = map_option (\<lambda>r. todos_tokens ts @ r) (tokenize r)"
proof (induction ts rule: todos_tokens.induct)
  case 1
  show ?case by (simp add: option.map_ident)
next
  case (2 x)
  show ?case by (simp add: tokenize_stringify_todo)
next
  case (3 x y xs)
  have "tokenize (0x2C # r') = map_option (Cons Comma) (tokenize r')" for r'
    by simp
  with 3 show ?case
    by (simp add: tokenize_stringify_todo option.map_comp o_def del: tokenize.simps)
qed

lemma tokenize_JSON_stringify:
  "tokenize (JSON_stringify ts) = Some (LBracket # todos_tokens ts @ [RBracket])"
proof -
  have "tokenize [0x5D] = Some [RBracket]" by simp
  moreover have "tokenize (0x5B # r) = map_option (Cons LBracket) (tokenize r)" for r
    by simp
  ultimately show ?thesis
    by (simp add: JSON_stringify_def tokenize_join_comma del: tokenize.simps)
qed

subsection \<open>The parser on these tokens\<close>

lemma consume_append: "consume (xs @ ys) c = (case consume xs c of None \<Rightarrow> None | Some c' \<Rightarrow> consume ys c')"
proof (induction xs arbitrary: c)
  case Nil
  show ?case by simp
next
  case (Cons t ts)
  show ?case
    by (cases c) (simp add: Cons split: option.splits)
qed

lemma consume_todo_tokens:
  assumes "e = Value \<or> e = ValueOrEnd"
  shows "consume (todo_tokens todo) (e, FArray es # st)
         = Some (CommaOrEnd, FArray (es @ [todo_json todo]) # st)"
  using assms by (auto simp: todo_tokens_def todo_json_def ascii_def)

lemma consume_todos_tokens:
  assumes "ts \<noteq> []" and "e = Value \<or> e = ValueOrEnd"
  shows "consume (todos_tokens ts) (e, FArray es # st)
         = Some (CommaOrEnd, FArray (es @ map todo_json ts) # st)"
  using assms
proof (induction ts arbitrary: e es rule: todos_tokens.induct)
  case 1
  then show ?case by simp
next
  case (2 x)
  then show ?case by (simp add: consume_todo_tokens)
next
  case (3 x y xs)
  have "consume (todos_tokens (y # xs)) (Value, FArray (es @ [todo_json x]) # st)
        = Some (CommaOrEnd, FArray ((es @ [todo_json x]) @ map todo_json (y # xs)) # st)"
    by (rule 3(1)) simp_all
  then show ?case
    using 3(3) by (simp add: consume_append consume_todo_tokens)
qed

lemma parse_todos_tokens:
  "parse_tokens (LBracket # todos_tokens ts @ [RBracket]) = Some (todos_json ts)"
proof (cases "ts = []")
  case True
  then show ?thesis by (simp add: parse_tokens_def todos_json_def)
next
  case False
  then show ?thesis
    by (simp add: parse_tokens_def todos_json_def consume_append
        consume_todos_tokens[where e = ValueOrEnd and es = "[]"])
qed

lemma JSON_parse_stringify: "JSON_parse (JSON_stringify ts) = Inr (todos_json ts)"
  by (simp add: JSON_parse_def tokenize_JSON_stringify parse_todos_tokens)

lemma as_todo_json: "is_safe_integer (todo_id todo) \<Longrightarrow> as_todo (todo_json todo) = Some todo"
  by (simp add: todo_json_def)

lemma as_todos_json: "safe_ids ts \<Longrightarrow> as_todos (todos_json ts) = Some ts"
  by (induction ts) (simp_all add: todos_json_def as_todo_json)

lemma as_todo_safe: "as_todo v = Some t \<Longrightarrow> is_safe_integer (todo_id t)"
  by (induction v rule: as_todo.induct) (auto split: if_splits)

lemma those_as_todo_safe: "those (map as_todo vs) = Some ts \<Longrightarrow> safe_ids ts"
  by (induction vs arbitrary: ts) (auto split: option.splits dest: as_todo_safe)

lemma as_todos_safe: "as_todos v = Some ts \<Longrightarrow> safe_ids ts"
  by (cases v) (auto dest: those_as_todo_safe)

lemma safe_ids_defaultTodos: "safe_ids defaultTodos"
  by (simp add: defaultTodos_def is_safe_integer_def)

lemma JSON_stringify_nonempty: "JSON_stringify ts \<noteq> []"
  by (simp add: JSON_stringify_def)

section \<open>Loading the saved list\<close>

lemma load_stringify: "load (Some (JSON_stringify ts)) = todos_json ts"
  by (simp add: load_def JSON_stringify_nonempty JSON_parse_stringify)

text \<open>
  C1, as the code has it. When the saved entry is absent, is the empty string, or is a text
  on which \<open>JSON.parse\<close> throws, \<open>load\<close> gives exactly the default list of three tasks
  (ids 1, 2, 3; the first completed, the other two not), and the failure goes no further:
  \<open>load\<close> always returns a value. A text that parses is passed on as parsed, whatever its
  shape.
\<close>

theorem load_recovers_from_syntax_errors:
  "load None = todos_json defaultTodos
   \<and> load (Some []) = todos_json defaultTodos
   \<and> (JSON_parse text = Inl err \<longrightarrow> load (Some text) = todos_json defaultTodos)
   \<and> (JSON_parse text = Inr v \<longrightarrow> load (Some text) = v)
   \<and> map todo_id defaultTodos = [1, 2, 3]
   \<and> map completed defaultTodos = [True, False, False]"
proof -
  have "JSON_parse [] = Inl SyntaxError"
    by (simp add: JSON_parse_def parse_tokens_def)
  then have "JSON_parse text = Inr v \<longrightarrow> text \<noteq> []"
    by auto
  then show ?thesis
    by (auto simp: load_def defaultTodos_def)
qed

theorem load_recovers_from_syntax_errors_witness:
  \<open>JSON_parse (ascii ''not json'') = Inl SyntaxError
   \<and> load (Some (ascii ''not json'')) = todos_json defaultTodos
   \<and> JSON_parse (ascii ''[ ]'') = Inr (JArray [])
   \<and> load (Some (ascii ''[ ]'')) = JArray []\<close>
proof -
  have 1: "JSON_parse (ascii ''not json'') = Inl SyntaxError"
    by code_simp
  have 2: "JSON_parse (ascii ''[ ]'') = Inr (JArray [])"
    by code_simp
  show ?thesis
    using load_recovers_from_syntax_errors [of "ascii ''not json''" SyntaxError]
      load_recovers_from_syntax_errors [of "ascii ''[ ]''" _ "JArray []"] 1 2
    by simp
qed

text \<open>
  The claim as the specification words it also promises the default list for a payload that
  parses but has the wrong shape. The text \<open>[{"id":1}]\<close> parses, its one element has
  neither \<open>text\<close> nor \<open>completed\<close>, and \<open>load\<close> returns it, not the default list.
\<close>

theorem load_accepts_wrong_shape:
  \<open>JSON_parse (ascii ''[{"id":1}]'') = Inr (JArray [JObject [(ascii ''id'', JNumber 1)]])
   \<and> as_todos (JArray [JObject [(ascii ''id'', JNumber 1)]]) = None
   \<and> load (Some (ascii ''[{"id":1}]'')) = JArray [JObject [(ascii ''id'', JNumber 1)]]
   \<and> load (Some (ascii ''[{"id":1}]'')) \<noteq> todos_json defaultTodos\<close>
proof -
  have 1: \<open>JSON_parse (ascii ''[{"id":1}]'') = Inr (JArray [JObject [(ascii ''id'', JNumber 1)]])\<close>
    by code_simp
  have 2: \<open>ascii ''[{"id":1}]'' \<noteq> []\<close>
    by (simp add: ascii_def)
  show ?thesis
    using 1 2 by (simp add: load_def todos_json_def defaultTodos_def)
qed

text \<open>
  C9. For every list of tasks whose ids are safe integers (the integers a JavaScript
  number holds exactly, and the domain of \<open>number_to_string\<close>), parsing the serialized
  list gives the list back: the same tasks in the same order, with their ids, texts and
  completed flags; so does \<open>load\<close> on the saved text.
\<close>

theorem decode_encode_roundtrip:
  assumes "list_all (\<lambda>t. is_safe_integer (todo_id t)) ts"
  shows "JSON_parse (JSON_stringify ts) = Inr (todos_json ts)
         \<and> load (Some (JSON_stringify ts)) = todos_json ts
         \<and> as_todos (load (Some (JSON_stringify ts))) = Some ts"
  using assms by (simp add: JSON_parse_stringify load_stringify as_todos_json)

theorem decode_encode_roundtrip_witness:
  \<open>JSON_stringify [\<lparr>todo_id = 1700000000000, todo_text = ascii ''Ship "it"'', completed = False\<rparr>,
                   \<lparr>todo_id = 3, todo_text = [0x30A2, 0x30D7, 0x0A], completed = True\<rparr>]
     = ascii ''[{"id":1700000000000,"text":"Ship '' @ [0x5C] @ ascii ''"it'' @ [0x5C]
       @ ascii ''"","completed":false},{"id":3,"text":"'' @ [0x30A2, 0x30D7, 0x5C]
       @ ascii ''n","completed":true}]''
   \<and> as_todos (load (Some (JSON_stringify
        [\<lparr>todo_id = 1700000000000, todo_text = ascii ''Ship "it"'', completed = False\<rparr>,
         \<lparr>todo_id = 3, todo_text = [0x30A2, 0x30D7, 0x0A], completed = True\<rparr>])))
     = Some [\<lparr>todo_id = 1700000000000, todo_text = ascii ''Ship "it"'', completed = False\<rparr>,
             \<lparr>todo_id = 3, todo_text = [0x30A2, 0x30D7, 0x0A], completed = True\<rparr>]\<close>
proof -
  have 1: \<open>JSON_stringify [\<lparr>todo_id = 1700000000000, todo_text = ascii ''Ship "it"'', completed = False\<rparr>,
                   \<lparr>todo_id = 3, todo_text = [0x30A2, 0x30D7, 0x0A], completed = True\<rparr>]
     = ascii ''[{"id":1700000000000,"text":"Ship '' @ [0x5C] @ ascii ''"it'' @ [0x5C]
       @ ascii ''"","completed":false},{"id":3,"text":"'' @ [0x30A2, 0x30D7, 0x5C]
       @ ascii ''n","completed":true}]''\<close>
    by (simp add: JSON_stringify_def stringify_todo_def number_to_string_def nat_to_string.simps
        digit_char_def quote_json_string_def quote_unit_def is_high_surrogate_def
        is_low_surrogate_def ascii_def)
  have v: \<open>list_all (\<lambda>t. is_safe_integer (todo_id t))
        [\<lparr>todo_id = 1700000000000, todo_text = ascii ''Ship "it"'', completed = False\<rparr>,
         \<lparr>todo_id = 3, todo_text = [0x30A2, 0x30D7, 0x0A], completed = True\<rparr>]\<close>
    by (simp add: is_safe_integer_def)
  have 2: \<open>as_todos (load (Some (JSON_stringify
        [\<lparr>todo_id = 1700000000000, todo_text = ascii ''Ship "it"'', completed = False\<rparr>,
         \<lparr>todo_id = 3, todo_text = [0x30A2, 0x30D7, 0x0A], completed = True\<rparr>])))
     = Some [\<lparr>todo_id = 1700000000000, todo_text = ascii ''Ship "it"'', completed = False\<rparr>,
             \<lparr>todo_id = 3, todo_text = [0x30A2, 0x30D7, 0x0A], completed = True\<rparr>]\<close>
    using decode_encode_roundtrip [OF v] by blast
  show ?thesis
    using 1 2 by (rule conjI)
qed

section \<open>Adding a task\<close>

text \<open>
  C2. For every state and every input text: when the trimmed input is empty \<open>addTodo\<close>
  leaves the list unchanged; otherwise the new list is the old list followed by exactly
  one new task, whose text is the trimmed input and whose completed flag is false, so the
  length grows by exactly one.
\<close>

theorem addTodo_appends_one:
  "if trim (inputText s) = []
   then todos (addTodo now s) = todos s
   else todos (addTodo now s) =
          todos s @ [\<lparr>todo_id = now, todo_text = trim (inputText s), completed = False\<rparr>]
        \<and> length (todos (addTodo now s)) = Suc (length (todos s))
        \<and> todo_text (last (todos (addTodo now s))) = trim (inputText s)
        \<and> \<not> completed (last (todos (addTodo now s)))"
  by (simp add: addTodo_def setTodos_def Let_def)

theorem addTodo_appends_one_witness:
  "trim (ascii ''  Ship it '') = ascii ''Ship it''
   \<and> map todo_id (todos (addTodo 1700000000000
         (default_session\<lparr>inputText := ascii ''  Ship it ''\<rparr>))) = [1, 2, 3, 1700000000000]
   \<and> last (todos (addTodo 1700000000000 (default_session\<lparr>inputText := ascii ''  Ship it ''\<rparr>)))
       = \<lparr>todo_id = 1700000000000, todo_text = ascii ''Ship it'', completed = False\<rparr>
   \<and> trim (ascii ''   '') = []
   \<and> todos (addTodo 1700000000000 (default_session\<lparr>inputText := ascii ''   ''\<rparr>))
       = defaultTodos"
  using
    addTodo_appends_one [of "default_session\<lparr>inputText := ascii ''  Ship it ''\<rparr>" 1700000000000]
    addTodo_appends_one [of "default_session\<lparr>inputText := ascii ''   ''\<rparr>" 1700000000000]
  by (simp add: default_session_def initial_state_def setDefaultTodos_def setTodos_def
      defaultTodos_def trim_def is_space_def ascii_def)

section \<open>Toggling a task\<close>

text \<open>
  C5. For every list and every id: \<open>toggleTodo\<close> flips the completed flag of the tasks
  with that id and of no other task, changes neither ids, texts nor the order, is a no-op
  when no task has the id, and applied twice gives the original list back.
\<close>

theorem toggleTodo_flips_involution:
  "length (todos (toggleTodo i s)) = length (todos s)
   \<and> map todo_id (todos (toggleTodo i s)) = map todo_id (todos s)
   \<and> map todo_text (todos (toggleTodo i s)) = map todo_text (todos s)
   \<and> map completed (todos (toggleTodo i s)) =
       map (\<lambda>t. if todo_id t = i then \<not> completed t else completed t) (todos s)
   \<and> (i \<notin> todo_id ` set (todos s) \<longrightarrow> todos (toggleTodo i s) = todos s)
   \<and> todos (toggleTodo i (toggleTodo i s)) = todos s"
proof -
  let ?f = "\<lambda>todo. if todo_id todo = i then todo\<lparr>completed := \<not> completed todo\<rparr> else todo"
  have t: "todos (toggleTodo i s') = map ?f (todos s')" for s'
    by (simp add: toggleTodo_def setTodos_def)
  have noop: "i \<notin> todo_id ` set (todos s) \<longrightarrow> map ?f (todos s) = todos s"
    by (auto intro!: map_idI)
  have twice: "map ?f (map ?f (todos s)) = todos s"
    by (simp add: o_def map_idI)
  show ?thesis
    using noop twice by (simp add: t o_def if_distrib cong: if_cong)
qed

theorem toggleTodo_flips_involution_witness:
  "map completed (todos (toggleTodo 2 default_session)) = [True, True, False]
   \<and> map todo_id (todos (toggleTodo 2 default_session)) = [1, 2, 3]
   \<and> 99 \<notin> todo_id ` set (todos default_session)
   \<and> todos (toggleTodo 99 default_session) = defaultTodos
   \<and> todos (toggleTodo 2 (toggleTodo 2 default_session)) = defaultTodos"
  using toggleTodo_flips_involution [of 2 default_session]
    toggleTodo_flips_involution [of 99 default_session]
  by (simp add: default_session_def initial_state_def setDefaultTodos_def setTodos_def
      defaultTodos_def)

section \<open>Editing a task\<close>

text \<open>
  C6. For every state with an active editing cursor: when the trimmed draft is not empty,
  \<open>saveEdit\<close> overwrites the text of every task whose id is the cursor's with the trimmed
  draft and changes nothing else in the list; when the trimmed draft is empty the list is
  unchanged; the cursor is cleared in both cases.
\<close>

theorem saveEdit_commits_trimmed_draft:
  assumes "editingId s = Some e"
  shows "(if trim (editingText s) = []
          then todos (saveEdit s) = todos s
          else length (todos (saveEdit s)) = length (todos s)
               \<and> (\<forall>k < length (todos s).
                     todos (saveEdit s) ! k =
                       (if todo_id (todos s ! k) = e
                        then (todos s ! k)\<lparr>todo_text := trim (editingText s)\<rparr>
                        else todos s ! k)))
         \<and> editingId (saveEdit s) = None \<and> editingText (saveEdit s) = []"
  using assms by (simp add: saveEdit_def setTodos_def Let_def)

theorem saveEdit_commits_trimmed_draft_witness:
  "editingId (startEditing 3 (ascii ''  App launched  '') default_session) = Some 3
   \<and> trim (ascii ''  App launched  '') = ascii ''App launched''
   \<and> todos (saveEdit (startEditing 3 (ascii ''  App launched  '') default_session))
      = [defaultTodos ! 0, defaultTodos ! 1,
         \<lparr>todo_id = 3, todo_text = ascii ''App launched'', completed = False\<rparr>]
   \<and> editingId (saveEdit (startEditing 3 (ascii ''  App launched  '') default_session)) = None
   \<and> trim (ascii ''   '') = []
   \<and> todos (saveEdit (startEditing 3 (ascii ''   '') default_session)) = defaultTodos
   \<and> editingId (saveEdit (startEditing 3 (ascii ''   '') default_session)) = None"
  using
    saveEdit_commits_trimmed_draft
      [of "startEditing 3 (ascii ''  App launched  '') default_session" 3]
    saveEdit_commits_trimmed_draft [of "startEditing 3 (ascii ''   '') default_session" 3]
  by (simp add: default_session_def initial_state_def setDefaultTodos_def setTodos_def
      defaultTodos_def trim_def is_space_def ascii_def startEditing_def saveEdit_def)

text \<open>
  C10. When the editing cursor holds an id that no task of the list has, \<open>saveEdit\<close> with
  a non-empty trimmed draft leaves the task list unchanged and clears the cursor; the
  handler returns normally.
\<close>

theorem saveEdit_stale_cursor:
  assumes "editingId s = Some e" and "e \<notin> todo_id ` set (todos s)"
    and "trim (editingText s) \<noteq> []"
  shows "todos (saveEdit s) = todos s
         \<and> editingId (saveEdit s) = None \<and> editingText (saveEdit s) = []"
proof -
  have "map (\<lambda>todo. if Some (todo_id todo) = Some e
                     then todo\<lparr>todo_text := trim (editingText s)\<rparr> else todo) (todos s)
        = todos s"
    using assms(2) by (intro map_idI) auto
  then show ?thesis
    using assms(1) by (simp add: saveEdit_def setTodos_def Let_def)
qed

theorem saveEdit_stale_cursor_witness:
  "editingId (startEditing 99 (ascii '' x '') default_session) = Some 99
   \<and> 99 \<notin> todo_id ` set (todos (startEditing 99 (ascii '' x '') default_session))
   \<and> trim (editingText (startEditing 99 (ascii '' x '') default_session)) = ascii ''x''
   \<and> todos (saveEdit (startEditing 99 (ascii '' x '') default_session)) = defaultTodos
   \<and> editingId (saveEdit (startEditing 99 (ascii '' x '') default_session)) = None
   \<and> editingText (saveEdit (startEditing 99 (ascii '' x '') default_session)) = []"
  using saveEdit_stale_cursor [of "startEditing 99 (ascii '' x '') default_session" 99]
  by (simp add: default_session_def initial_state_def setDefaultTodos_def setTodos_def
      defaultTodos_def trim_def is_space_def ascii_def startEditing_def)

section \<open>Removing a task\<close>

text \<open>
  C7. For every list and every id: \<open>deleteTodo\<close> removes the tasks with that id and keeps
  all others in their order, is a no-op on the list when the id is not present (so a
  second removal changes neither the list nor its length), and clears the editing cursor
  when the cursor's id is the removed id, leaving it as it was otherwise.
\<close>

theorem deleteTodo_removes:
  "todos (deleteTodo i s) = filter (\<lambda>t. todo_id t \<noteq> i) (todos s)
   \<and> i \<notin> todo_id ` set (todos (deleteTodo i s))
   \<and> subseq (todos (deleteTodo i s)) (todos s)
   \<and> (i \<notin> todo_id ` set (todos s) \<longrightarrow> todos (deleteTodo i s) = todos s)
   \<and> todos (deleteTodo i (deleteTodo i s)) = todos (deleteTodo i s)
   \<and> length (todos (deleteTodo i (deleteTodo i s))) = length (todos (deleteTodo i s))
   \<and> (if editingId s = Some i
       then editingId (deleteTodo i s) = None \<and> editingText (deleteTodo i s) = []
       else editingId (deleteTodo i s) = editingId s
            \<and> editingText (deleteTodo i s) = editingText s)"
proof -
  have t: "todos (deleteTodo i s') = filter (\<lambda>t. todo_id t \<noteq> i) (todos s')" for s'
    by (simp add: deleteTodo_def setTodos_def Let_def)
  have noop: "i \<notin> todo_id ` set (todos s) \<longrightarrow> filter (\<lambda>t. todo_id t \<noteq> i) (todos s) = todos s"
    by (auto simp: filter_id_conv)
  have cursor: "if editingId s = Some i
       then editingId (deleteTodo i s) = None \<and> editingText (deleteTodo i s) = []
       else editingId (deleteTodo i s) = editingId s
            \<and> editingText (deleteTodo i s) = editingText s"
    by (simp add: deleteTodo_def setTodos_def Let_def)
  show ?thesis
    using noop cursor by (auto simp: t)
qed

theorem deleteTodo_removes_witness:
  "todos (deleteTodo 1 (startEditing 1 (ascii ''x'') default_session))
     = [defaultTodos ! 1, defaultTodos ! 2]
   \<and> editingId (deleteTodo 1 (startEditing 1 (ascii ''x'') default_session)) = None
   \<and> editingId (deleteTodo 2 (startEditing 1 (ascii ''x'') default_session)) = Some 1
   \<and> 99 \<notin> todo_id ` set (todos default_session)
   \<and> todos (deleteTodo 99 default_session) = defaultTodos
   \<and> length (todos (deleteTodo 1 (deleteTodo 1 default_session))) = 2"
  using deleteTodo_removes [of 1 "startEditing 1 (ascii ''x'') default_session"]
    deleteTodo_removes [of 2 "startEditing 1 (ascii ''x'') default_session"]
    deleteTodo_removes [of 99 default_session]
    deleteTodo_removes [of 1 default_session]
  by (simp add: default_session_def initial_state_def setDefaultTodos_def setTodos_def
      defaultTodos_def startEditing_def)

section \<open>Reordering\<close>

text \<open>
  C8. For every list: \<open>moveTodoUp index\<close> with \<open>0 < index < length\<close> exchanges the tasks
  at \<open>index\<close> and \<open>index - 1\<close> and leaves every other position as it was;
  \<open>moveTodoDown index\<close> with \<open>0 \<le> index < length - 1\<close> exchanges the tasks at \<open>index\<close>
  and \<open>index + 1\<close>; \<open>moveTodoUp 0\<close> and \<open>moveTodoDown\<close> at the last index change
  nothing.
\<close>

theorem moveTodo_swaps_neighbours:
  "(0 < index \<and> index < int (length (todos s)) \<longrightarrow>
      (\<exists>s'. moveTodoUp index s = Some s'
         \<and> length (todos s') = length (todos s)
         \<and> todos s' ! nat index = todos s ! nat (index - 1)
         \<and> todos s' ! nat (index - 1) = todos s ! nat index
         \<and> (\<forall>k < length (todos s). k \<noteq> nat index \<and> k \<noteq> nat (index - 1) \<longrightarrow>
               todos s' ! k = todos s ! k)))
   \<and> (0 \<le> index \<and> index < int (length (todos s)) - 1 \<longrightarrow>
      (\<exists>s'. moveTodoDown index s = Some s'
         \<and> length (todos s') = length (todos s)
         \<and> todos s' ! nat index = todos s ! nat (index + 1)
         \<and> todos s' ! nat (index + 1) = todos s ! nat index
         \<and> (\<forall>k < length (todos s). k \<noteq> nat index \<and> k \<noteq> nat (index + 1) \<longrightarrow>
               todos s' ! k = todos s ! k)))
   \<and> moveTodoUp 0 s = Some s
   \<and> moveTodoDown (int (length (todos s)) - 1) s = Some s"
proof -
  have up: "\<exists>s'. moveTodoUp index s = Some s'
         \<and> length (todos s') = length (todos s)
         \<and> todos s' ! nat index = todos s ! nat (index - 1)
         \<and> todos s' ! nat (index - 1) = todos s ! nat index
         \<and> (\<forall>k < length (todos s). k \<noteq> nat index \<and> k \<noteq> nat (index - 1) \<longrightarrow>
               todos s' ! k = todos s ! k)"
    if "0 < index" "index < int (length (todos s))"
  proof -
    have ne: "nat index \<noteq> nat (index - 1)" using that by arith
    have lt: "nat index < length (todos s)" "nat (index - 1) < length (todos s)"
      using that by arith+
    show ?thesis
      using that ne lt by (simp add: moveTodoUp_def swap_entries_def setTodos_def nth_list_update)
  qed
  have down: "\<exists>s'. moveTodoDown index s = Some s'
         \<and> length (todos s') = length (todos s)
         \<and> todos s' ! nat index = todos s ! nat (index + 1)
         \<and> todos s' ! nat (index + 1) = todos s ! nat index
         \<and> (\<forall>k < length (todos s). k \<noteq> nat index \<and> k \<noteq> nat (index + 1) \<longrightarrow>
               todos s' ! k = todos s ! k)"
    if "0 \<le> index" "index < int (length (todos s)) - 1"
  proof -
    have ne: "nat index \<noteq> nat (index + 1)" using that by arith
    have lt: "nat index < length (todos s)" "nat (index + 1) < length (todos s)"
      using that by arith+
    show ?thesis
      using that ne lt
      by (simp add: moveTodoDown_def swap_entries_def setTodos_def nth_list_update)
  qed
  have first: "moveTodoUp 0 s = Some s"
    by (simp add: moveTodoUp_def)
  have last: "moveTodoDown (int (length (todos s)) - 1) s = Some s"
    by (simp add: moveTodoDown_def)
  show ?thesis
    using up down first last by blast
qed

theorem moveTodo_swaps_neighbours_witness:
  "moveTodoUp 1 default_session
     = Some (setTodos [defaultTodos ! 1, defaultTodos ! 0, defaultTodos ! 2] default_session)
   \<and> moveTodoDown 1 default_session
     = Some (setTodos [defaultTodos ! 0, defaultTodos ! 2, defaultTodos ! 1] default_session)
   \<and> moveTodoUp 0 default_session = Some default_session
   \<and> int (length (todos default_session)) - 1 = 2
   \<and> moveTodoDown 2 default_session = Some default_session"
  using moveTodo_swaps_neighbours [of 1 default_session]
  by (simp add: default_session_def initial_state_def setDefaultTodos_def setTodos_def
      defaultTodos_def moveTodoUp_def moveTodoDown_def swap_entries_def)

section \<open>Persistence\<close>

lemma handle_frame:
  assumes "handle ev s = Some s'"
  shows "isLoaded s' = isLoaded s \<and> storage s' = storage s \<and> effect_deps s' = effect_deps s
         \<and> (todos_ref s' = todos_ref s \<longrightarrow> todos s' = todos s)"
  using assms
  by (cases ev)
    (auto simp: addTodo_def toggleTodo_def deleteTodo_def moveTodoUp_def moveTodoDown_def
      startEditing_def saveEdit_def cancelEdit_def clearAllTodos_def resetToDefault_def
      setDefaultTodos_def setTodos_def Let_def split: if_splits option.splits)

lemma handle_safe_ids:
  assumes "handle ev s = Some s'" and "safe_ids (todos s)" and "clock_in_range ev"
  shows "safe_ids (todos s')"
proof -
  have u: "safe_ids (xs[i := xs ! j, j := xs ! i])"
    if "safe_ids xs" "i < length xs" "j < length xs" for xs :: "Todo list" and i j
    using that by (auto simp: list_all_iff dest!: set_update_subset_insert[THEN subsetD])
  show ?thesis
    using assms
    by (cases ev)
      (auto simp: addTodo_def toggleTodo_def deleteTodo_def moveTodoUp_def moveTodoDown_def
        startEditing_def saveEdit_def cancelEdit_def clearAllTodos_def resetToDefault_def
        setDefaultTodos_def setTodos_def swap_entries_def Let_def list_all_iff u
        safe_ids_defaultTodos[unfolded list_all_iff]
        split: if_splits option.splits)
qed

lemma dispatch_synced:
  assumes "synced s" and "dispatch ev s = Some s'" and "clock_in_range ev"
  shows "synced s'"
proof -
  from assms(2) obtain h where h: "handle ev s = Some h" and s': "s' = persist_effect h"
    by (auto simp: dispatch_def)
  have "safe_ids (todos h)"
    using handle_safe_ids[OF h _ assms(3)] assms(1) by (simp add: synced_def)
  with handle_frame[OF h] assms(1) show ?thesis
    by (auto simp: synced_def s' persist_effect_def)
qed

lemma run_events_synced:
  "synced s \<Longrightarrow> list_all clock_in_range evs \<Longrightarrow> run_events evs s = Some s' \<Longrightarrow> synced s'"
proof (induction evs arbitrary: s)
  case Nil
  then show ?case by simp
next
  case (Cons ev evs)
  then show ?case
    by (auto split: option.splits dest: dispatch_synced)
qed

lemma mount_synced: "mount saved = Some s \<Longrightarrow> synced s"
  by (auto simp: mount_def Let_def synced_def persist_effect_def initial_state_def setTodos_def
      split: option.splits dest: as_todos_safe)

lemma mount_stringify:
  "safe_ids ts \<Longrightarrow> \<exists>s. mount (Some (JSON_stringify ts)) = Some s \<and> todos s = ts"
  by (simp add: mount_def Let_def initial_state_def load_stringify as_todos_json
      persist_effect_def setTodos_def)

text \<open>
  C4. The persistence effect of the first render writes nothing, and no event handled
  while \<open>isLoaded\<close> is false changes the storage or sets the flag. Once the page is
  mounted with a list whose ids are safe integers (\<open>mount\<close> gives a state for no other
  list), after every sequence of events whose clock readings are in the range of
  \<open>Date.now()\<close> the component is loaded, the ids of the list are safe integers, the
  storage holds the serialization of the current list, written before the next event is
  handled, and mounting the page again from that storage gives the same list.
\<close>

theorem persistence_follows_every_mutation:
  "storage (persist_effect (initial_state saved)) = saved
   \<and> (\<not> isLoaded s \<longrightarrow> dispatch ev s = Some s' \<longrightarrow> storage s' = storage s \<and> \<not> isLoaded s')
   \<and> (mount saved = Some s0 \<longrightarrow> list_all clock_in_range evs \<longrightarrow>
      run_events evs s0 = Some s1 \<longrightarrow>
        safe_ids (todos s0) \<and> safe_ids (todos s1)
        \<and> isLoaded s1 \<and> storage s1 = Some (JSON_stringify (todos s1))
        \<and> (\<exists>s2. mount (storage s1) = Some s2 \<and> todos s2 = todos s1))"
proof -
  have first: "storage (persist_effect (initial_state saved)) = saved"
    by (simp add: persist_effect_def initial_state_def)
  have before: "storage s' = storage s \<and> \<not> isLoaded s'"
    if "\<not> isLoaded s" "dispatch ev s = Some s'"
  proof -
    from that(2) obtain h where h: "handle ev s = Some h" and s': "s' = persist_effect h"
      by (auto simp: dispatch_def)
    from handle_frame[OF h] that(1) show ?thesis
      by (simp add: s' persist_effect_def)
  qed
  have after: "safe_ids (todos s0) \<and> safe_ids (todos s1)
        \<and> isLoaded s1 \<and> storage s1 = Some (JSON_stringify (todos s1))
        \<and> (\<exists>s2. mount (storage s1) = Some s2 \<and> todos s2 = todos s1)"
    if "mount saved = Some s0" "list_all clock_in_range evs" "run_events evs s0 = Some s1"
  proof -
    have 0: "synced s0"
      using mount_synced[OF that(1)] .
    have 1: "synced s1"
      using run_events_synced[OF 0 that(2) that(3)] .
    then have "\<exists>s2. mount (Some (JSON_stringify (todos s1))) = Some s2 \<and> todos s2 = todos s1"
      by (intro mount_stringify) (simp add: synced_def)
    with 0 1 show ?thesis
      by (simp add: synced_def)
  qed
  show ?thesis
    using first before after by blast
qed

theorem persistence_follows_every_mutation_witness:
  "\<not> isLoaded (initial_state (Some (JSON_stringify defaultTodos)))
   \<and> dispatch (ClearAllTodos True) (initial_state (Some (JSON_stringify defaultTodos)))
     = Some \<lparr>todos = [], inputText = [], isLoaded = False, editingId = None,
             editingText = [], todos_ref = 1, storage = Some (JSON_stringify defaultTodos),
             effect_deps = Some (1, False)\<rparr>
   \<and> mount None =
     Some \<lparr>todos = defaultTodos, inputText = [], isLoaded = True, editingId = None,
           editingText = [], todos_ref = 1, storage = Some (JSON_stringify defaultTodos),
           effect_deps = Some (1, True)\<rparr>
   \<and> list_all clock_in_range
        [ChangeInput (ascii ''Ship it''), AddTodo 1700000000000, ToggleTodo 2, DeleteTodo 1,
         MoveTodoUp 1]
   \<and> run_events
        [ChangeInput (ascii ''Ship it''), AddTodo 1700000000000, ToggleTodo 2, DeleteTodo 1,
         MoveTodoUp 1]
        \<lparr>todos = defaultTodos, inputText = [], isLoaded = True, editingId = None,
         editingText = [], todos_ref = 1, storage = Some (JSON_stringify defaultTodos),
         effect_deps = Some (1, True)\<rparr>
     = Some \<lparr>todos = [defaultTodos ! 2, (defaultTodos ! 1)\<lparr>completed := True\<rparr>,
                      \<lparr>todo_id = 1700000000000, todo_text = ascii ''Ship it'',
                       completed = False\<rparr>],
             inputText = [], isLoaded = True, editingId = None, editingText = [],
             todos_ref = 5,
             storage = Some (JSON_stringify
                     [defaultTodos ! 2, (defaultTodos ! 1)\<lparr>completed := True\<rparr>,
                      \<lparr>todo_id = 1700000000000, todo_text = ascii ''Ship it'',
                       completed = False\<rparr>]),
             effect_deps = Some (5, True)\<rparr>
   \<and> map_option todos (mount (Some (JSON_stringify
                     [defaultTodos ! 2, (defaultTodos ! 1)\<lparr>completed := True\<rparr>,
                      \<lparr>todo_id = 1700000000000, todo_text = ascii ''Ship it'',
                       completed = False\<rparr>])))
     = Some [defaultTodos ! 2, (defaultTodos ! 1)\<lparr>completed := True\<rparr>,
             \<lparr>todo_id = 1700000000000, todo_text = ascii ''Ship it'', completed = False\<rparr>]"
proof -
  let ?final = "[defaultTodos ! 2, (defaultTodos ! 1)\<lparr>completed := True\<rparr>,
                 \<lparr>todo_id = 1700000000000, todo_text = ascii ''Ship it'', completed = False\<rparr>]"
  let ?s0 = "\<lparr>todos = defaultTodos, inputText = [], isLoaded = True, editingId = None,
           editingText = [], todos_ref = 1, storage = Some (JSON_stringify defaultTodos),
           effect_deps = Some (1, True)\<rparr>"
  let ?s1 = "\<lparr>todos = ?final, inputText = [], isLoaded = True, editingId = None,
           editingText = [], todos_ref = 5, storage = Some (JSON_stringify ?final),
           effect_deps = Some (5, True)\<rparr>"
  let ?evs = "[ChangeInput (ascii ''Ship it''), AddTodo 1700000000000, ToggleTodo 2,
               DeleteTodo 1, MoveTodoUp 1]"
  have u: "\<not> isLoaded (initial_state (Some (JSON_stringify defaultTodos)))"
    by (simp add: initial_state_def)
  have d: "dispatch (ClearAllTodos True) (initial_state (Some (JSON_stringify defaultTodos)))
     = Some \<lparr>todos = [], inputText = [], isLoaded = False, editingId = None,
             editingText = [], todos_ref = 1, storage = Some (JSON_stringify defaultTodos),
             effect_deps = Some (1, False)\<rparr>"
    by (simp add: dispatch_def clearAllTodos_def setTodos_def persist_effect_def
        initial_state_def)
  have m: "mount None = Some ?s0"
    by (simp add: mount_def Let_def initial_state_def load_def as_todos_json
        safe_ids_defaultTodos persist_effect_def setTodos_def)
  have c: "list_all clock_in_range ?evs"
    by (simp add: is_safe_integer_def)
  have r: "run_events ?evs ?s0 = Some ?s1"
    by (simp add: dispatch_def persist_effect_def addTodo_def toggleTodo_def deleteTodo_def
        moveTodoUp_def swap_entries_def setTodos_def Let_def defaultTodos_def trim_def
        is_space_def ascii_def)
  from persistence_follows_every_mutation
         [of None "initial_state (Some (JSON_stringify defaultTodos))" "ClearAllTodos True"
             _ ?s0 ?evs ?s1] m c r
  have "\<exists>s2. mount (storage ?s1) = Some s2 \<and> todos s2 = todos ?s1"
    by blast
  then have l: "map_option todos (mount (Some (JSON_stringify ?final))) = Some ?final"
    by auto
  show ?thesis
    using u d m c r l by blast
qed

section \<open>Identifiers\<close>

lemma distinct_swap_ids:
  assumes "i < length xs" "j < length xs" "distinct (map todo_id xs)"
  shows "distinct (map todo_id (xs[i := xs ! j, j := xs ! i]))"
proof -
  have "distinct ((map todo_id xs)[i := map todo_id xs ! j, j := map todo_id xs ! i])"
    using assms by (simp only: distinct_swap length_map)
  then show ?thesis
    using assms(1,2) by (simp add: map_update)
qed

lemma ids_unchanged:
  assumes "\<And>x. todo_id (f x) = todo_id x"
  shows "map (todo_id \<circ> f) xs = map todo_id xs"
  by (simp add: assms)

text \<open>
  C3, as the code has it. The default list has pairwise distinct ids, and every event
  keeps the ids of the list pairwise distinct, provided that the clock value an
  \<open>addTodo\<close> reads is greater than every id in the list; the id of the added task is that
  clock value, and so greater than all ids in the list.
\<close>

theorem distinct_ids_preserved:
  assumes "distinct (map todo_id (todos s))"
    and "handle ev s = Some s'"
    and "\<forall>now. ev = AddTodo now \<longrightarrow> (\<forall>t \<in> set (todos s). todo_id t < now)"
  shows "distinct (map todo_id (todos s'))
         \<and> (\<forall>now. ev = AddTodo now \<longrightarrow> trim (inputText s) \<noteq> [] \<longrightarrow>
               todo_id (last (todos s')) = now
               \<and> (\<forall>t \<in> set (todos s). todo_id t < todo_id (last (todos s'))))
         \<and> distinct (map todo_id defaultTodos)"
proof -
  have d: "distinct (map todo_id defaultTodos)"
    by (simp add: defaultTodos_def)
  have p: "distinct (map todo_id (todos s'))"
  proof (cases ev)
    case (AddTodo now)
    then show ?thesis
      using assms by (auto simp: addTodo_def setTodos_def Let_def split: if_splits)
  next
    case (ToggleTodo i)
    then show ?thesis
      using assms(1,2) by (auto simp: toggleTodo_def setTodos_def ids_unchanged)
  next
    case (DeleteTodo i)
    then show ?thesis
      using assms(1,2) by (auto simp: deleteTodo_def setTodos_def Let_def distinct_map_filter)
  next
    case (MoveTodoUp index)
    then show ?thesis
      using assms(1,2)
      by (auto simp: moveTodoUp_def swap_entries_def setTodos_def distinct_swap_ids
          split: if_splits)
  next
    case (MoveTodoDown index)
    then show ?thesis
      using assms(1,2)
      by (auto simp: moveTodoDown_def swap_entries_def setTodos_def distinct_swap_ids
          split: if_splits)
  next
    case SaveEdit
    then show ?thesis
      using assms(1,2) by (auto simp: saveEdit_def setTodos_def Let_def ids_unchanged)
  next
    case (ClearAllTodos c)
    then show ?thesis
      using assms(1,2) by (auto simp: clearAllTodos_def setTodos_def)
  next
    case (ResetToDefault c)
    then show ?thesis
      using assms(1,2) d by (auto simp: resetToDefault_def setDefaultTodos_def setTodos_def)
  qed (use assms(1,2) in \<open>auto simp: startEditing_def cancelEdit_def\<close>)
  have a: "\<forall>now. ev = AddTodo now \<longrightarrow> trim (inputText s) \<noteq> [] \<longrightarrow>
               todo_id (last (todos s')) = now
               \<and> (\<forall>t \<in> set (todos s). todo_id t < todo_id (last (todos s')))"
    using assms(2,3) by (auto simp: addTodo_def setTodos_def Let_def)
  show ?thesis
    using p a d by blast
qed

theorem distinct_ids_preserved_witness:
  "distinct (map todo_id (todos (default_session\<lparr>inputText := ascii ''Ship it''\<rparr>)))
   \<and> handle (AddTodo 1700000000000) (default_session\<lparr>inputText := ascii ''Ship it''\<rparr>)
       = Some (addTodo 1700000000000 (default_session\<lparr>inputText := ascii ''Ship it''\<rparr>))
   \<and> map todo_id (todos (addTodo 1700000000000 (default_session\<lparr>inputText := ascii ''Ship it''\<rparr>)))
       = [1, 2, 3, 1700000000000]
   \<and> distinct (map todo_id
        (todos (addTodo 1700000000000 (default_session\<lparr>inputText := ascii ''Ship it''\<rparr>))))"
  using distinct_ids_preserved
    [of "default_session\<lparr>inputText := ascii ''Ship it''\<rparr>" "AddTodo 1700000000000"
        "addTodo 1700000000000 (default_session\<lparr>inputText := ascii ''Ship it''\<rparr>)"]
  by (simp add: default_session_def initial_state_def setDefaultTodos_def setTodos_def
      defaultTodos_def trim_def is_space_def ascii_def addTodo_def)

text \<open>
  Without that proviso the claim fails: the id is the value of \<open>Date.now()\<close> and nothing
  else. Two tasks added within the same millisecond get the same id.
\<close>

theorem duplicate_ids_same_millisecond:
  "map todo_id (todos (addTodo 1700000000000
      ((addTodo 1700000000000 (default_session\<lparr>inputText := ascii ''a''\<rparr>))
         \<lparr>inputText := ascii ''b''\<rparr>)))
     = [1, 2, 3, 1700000000000, 1700000000000]
   \<and> \<not> distinct (map todo_id (todos (addTodo 1700000000000
      ((addTodo 1700000000000 (default_session\<lparr>inputText := ascii ''a''\<rparr>))
         \<lparr>inputText := ascii ''b''\<rparr>))))"
  by (simp add: default_session_def initial_state_def setDefaultTodos_def setTodos_def
      defaultTodos_def trim_def is_space_def ascii_def addTodo_def)

end
